theory Spec2Isabelle
  imports Main
begin

section \<open>Bulk connection import: the parse service of the frontend\<close>

text \<open>
  A shallow embedding of \<^verbatim>\<open>connectionParseService.js\<close>: the basic checks on
  the parsed data, the group lookups built from the connection group tree, the group
  transformer, and the reduction that folds every entry of the connection data into
  one parse result.

  Modelling conventions.
  \<^item> Objects whose fields the service reads are records; a field that may be missing
    holds an \<open>option\<close> (\<open>None\<close> is JavaScript's \<open>undefined\<close>).
  \<^item> An entry of the connection data is typed as the import format documents it:
    \<open>group\<close> and \<open>parentIdentifier\<close> hold strings, \<open>users\<close> and \<open>groups\<close>
    arrays of strings.
  \<^item> The plain objects \<open>groupLookups\<close> and \<open>identifierSet\<close> are maps over their
    own properties. A read of \<open>identifierSet\<close> also finds the members an object
    inherits from \<open>Object.prototype\<close>; a read of \<open>groupLookups\<close> is always at a path
    that begins with \<open>ROOT\<close>, which no inherited member does (lemma
    \<open>absoluteGroupPath_not_inherited\<close>).
  \<^item> The maps \<open>users\<close> and \<open>groups\<close> of the parse result are the mappings of the
    specification, since the \<open>ParseResult\<close> type is not part of the service.
  \<^item> A thrown value and a rejected promise are \<open>Inl\<close> of a sum; the value returned
    or resolved is \<open>Inr\<close>.
  \<^item> An object mutated in place is passed in and returned updated.
  \<^item> The promises of the service resolve once, before the reduction starts; the
    connection group tree they wait for is an argument of the model.
\<close>

subsection \<open>Data\<close>

text \<open>Modelled from the spec: the \<open>ParseError\<close> type is injected; the service
  passes it a message, a translation key and the variables of the translation, and the
  specification's \<open>ParseIssue\<close> has these three fields (no variables is the empty
  list).\<close>

record parseError =
  message :: string
  key :: "string option"
  variables :: "(string \<times> string) list"

text \<open>A connection group of the tree returned by \<open>getConnectionGroupTree\<close>:
  the fields \<open>saveLookups\<close> reads (\<open>identifier\<close> is a reserved word of the
  theory language, so the field is \<open>groupIdentifier\<close> here).\<close>

datatype connectionGroup =
  ConnectionGroup (groupIdentifier: string) (name: string)
    (childConnectionGroups: "connectionGroup list")

text \<open>The value resolved by \<open>getGroupLookups\<close>: the map of group paths to group
  identifiers and the set of known identifiers, an object whose values are all
  \<open>true\<close>.\<close>

record lookups =
  groupLookups :: "string \<rightharpoonup> string"
  identifierSet :: "string \<rightharpoonup> bool"

text \<open>An entry of the connection data: the fields the service reads, and the
  remaining attributes of the connection, which it only copies.\<close>

record importConnection =
  group :: "string option"
  parentIdentifier :: "string option"
  users :: "string list option"
  groups :: "string list option"
  attributes :: "(string \<times> string) list"

text \<open>The parsed file contents handed to \<open>parseConnectionData\<close>: an array of
  entries, or any other value a JSON or YAML document can denote.\<close>

datatype parsedData =
    JArray "importConnection list"
  | JObject "(string \<times> string) list"
  | JString string
  | JNumber int
  | JBool bool
  | JNull

text \<open>Modelled from the spec: the \<open>Connection\<close> type is injected and its
  constructor is not part of the service; the connection attribute object is
  constructed from the transformed record, which the model keeps whole.\<close>

datatype connection = Connection importConnection

text \<open>Modelled from the spec: the \<open>DirectoryPatch\<close> type is injected; the service
  passes it the operation, the path and the value.\<close>

record directoryPatch =
  op :: string
  path :: string
  val :: connection

text \<open>Modelled from the spec: the \<open>ParseResult\<close> type is injected; the service reads
  and updates the fields \<open>patches\<close>, \<open>users\<close>, \<open>groups\<close>, \<open>errors\<close> and
  \<open>hasErrors\<close>, and a new result is created empty. The two maps are named
  \<open>granteeUsers\<close> and \<open>granteeGroups\<close> here, since \<open>users\<close> and \<open>groups\<close> are
  the fields of an entry.\<close>

record parseResult =
  patches :: "directoryPatch list"
  granteeUsers :: "string \<rightharpoonup> nat list"
  granteeGroups :: "string \<rightharpoonup> nat list"
  errors :: "parseError list list"
  hasErrors :: bool

definition newParseResult :: parseResult where
  "newParseResult =
     \<lparr>patches = [], granteeUsers = Map.empty, granteeGroups = Map.empty,
      errors = [], hasErrors = False\<rparr>"

text \<open>A transform function: it returns the transformed entry or throws.\<close>

type_synonym transform = "importConnection \<Rightarrow> parseError + importConnection"

subsection \<open>JavaScript primitives\<close>

text \<open>The truthy view of a string field: a missing field and the empty string are
  both falsy, every other string is truthy.\<close>

definition truthy :: "string option \<Rightarrow> string option" where
  "truthy v = (case v of None \<Rightarrow> None | Some s \<Rightarrow> (if s = [] then None else Some s))"

definition startsWith :: "string \<Rightarrow> string \<Rightarrow> bool" where
  "startsWith s p = (take (length p) s = p)"

definition endsWith :: "string \<Rightarrow> string \<Rightarrow> bool" where
  "endsWith s p = (length p \<le> length s \<and> drop (length s - length p) s = p)"

text \<open>\<open>s.slice(0, -1)\<close>: all but the last character.\<close>

definition sliceButLast :: "string \<Rightarrow> string" where
  "sliceButLast s = butlast s"

subsection \<open>The errors the service creates\<close>

definition arrayRequiredError :: parseError where
  "arrayRequiredError =
     \<lparr>message = ''Import data must be a list of connections'',
      key = Some ''IMPORT.ERROR_ARRAY_REQUIRED'', variables = []\<rparr>"

definition emptyFileError :: parseError where
  "emptyFileError =
     \<lparr>message = ''The provided file is empty'',
      key = Some ''IMPORT.ERROR_EMPTY_FILE'', variables = []\<rparr>"

definition invalidGroupIdentifierError :: "string \<Rightarrow> parseError" where
  "invalidGroupIdentifierError parentId =
     \<lparr>message = ''No group with identifier: '' @ parentId,
      key = Some ''IMPORT.ERROR_INVALID_GROUP_IDENTIFIER'',
      variables = [(''IDENTIFIER'', parentId)]\<rparr>"

definition ambiguousParentGroupError :: parseError where
  "ambiguousParentGroupError =
     \<lparr>message = ''Only one of group or parentIdentifier can be set'',
      key = Some ''IMPORT.ERROR_AMBIGUOUS_PARENT_GROUP'', variables = []\<rparr>"

definition invalidGroupError :: "string \<Rightarrow> parseError" where
  "invalidGroupError g =
     \<lparr>message = ''No group found named: '' @ g,
      key = Some ''IMPORT.ERROR_INVALID_GROUP'',
      variables = [(''GROUP'', g)]\<rparr>"

subsection \<open>performBasicChecks\<close>

definition instanceofArray :: "parsedData \<Rightarrow> bool" where
  "instanceofArray parsedData = (case parsedData of JArray entries \<Rightarrow> True | _ \<Rightarrow> False)"

text \<open>The error of the first check that fails, \<open>None\<close> (the source returns
  \<open>undefined\<close>) when both pass.\<close>

definition performBasicChecks :: "parsedData \<Rightarrow> parseError option" where
  "performBasicChecks parsedData =
     (if \<not> instanceofArray parsedData then Some arrayRequiredError
      else (case parsedData of
              JArray entries \<Rightarrow> (if length entries = 0 then Some emptyFileError else None)
            | _ \<Rightarrow> None))"

subsection \<open>getGroupLookups\<close>

definition ROOT_GROUP_IDENTIFIER :: string where
  "ROOT_GROUP_IDENTIFIER = ''ROOT''"

text \<open>\<open>saveLookups\<close> writes into the two objects of the enclosing scope; the model
  passes them in and returns them updated. \<open>_.forEach\<close> over the children is a fold.\<close>

fun saveLookups :: "string \<Rightarrow> connectionGroup \<Rightarrow> lookups \<Rightarrow> lookups" where
  "saveLookups prefix (ConnectionGroup ident nm children) s =
     (let currentPath = prefix @ nm;
          s1 = s\<lparr>groupLookups := (groupLookups s)(currentPath \<mapsto> ident)\<rparr>;
          s2 = s1\<lparr>identifierSet := (identifierSet s1)(ident \<mapsto> True)\<rparr>;
          nextPrefix = currentPath @ ''/''
      in fold (saveLookups nextPrefix) children s2)"

definition getGroupLookups :: "connectionGroup \<Rightarrow> lookups" where
  "getGroupLookups rootGroup =
     saveLookups [] rootGroup \<lparr>groupLookups = Map.empty, identifierSet = Map.empty\<rparr>"

subsection \<open>getGroupTransformer\<close>

text \<open>The absolute path of a group given by the user (lines 200 to 213).\<close>

definition absoluteGroupPath :: "string \<Rightarrow> string" where
  "absoluteGroupPath g =
     (let group1 =
            (if startsWith g ''/'' then ROOT_GROUP_IDENTIFIER @ g
             else if \<not> startsWith g ROOT_GROUP_IDENTIFIER
                  then ROOT_GROUP_IDENTIFIER @ ''/'' @ g
                  else g)
      in if endsWith group1 ''/'' then sliceButLast group1 else group1)"

text \<open>The names of the members every plain object inherits from
  \<open>Object.prototype\<close>. Each of them is a function or an object, so a read of one of
  these names on an object without an own property of that name is truthy.\<close>

definition objectPrototypeMembers :: "string list" where
  "objectPrototypeMembers =
     [''constructor'', ''__defineGetter__'', ''__defineSetter__'', ''hasOwnProperty'',
      ''__lookupGetter__'', ''__lookupSetter__'', ''isPrototypeOf'',
      ''propertyIsEnumerable'', ''toString'', ''valueOf'', ''__proto__'',
      ''toLocaleString'']"

text \<open>The truthiness of \<open>identifierSet[parentIdentifier]\<close> (line 179): the own
  property when there is one, the inherited member otherwise.\<close>

definition identifierSetTruthy :: "lookups \<Rightarrow> string \<Rightarrow> bool" where
  "identifierSetTruthy lk parentId =
     (case identifierSet lk parentId of
        Some known \<Rightarrow> known
      | None \<Rightarrow> parentId \<in> set objectPrototypeMembers)"

text \<open>The function to which the promise of \<open>getGroupTransformer\<close> resolves, for the
  lookups it was given. The branches are in the order of the source: no group (return the
  entry, or reject an unknown parent identifier), both fields, then the lookup of the
  path.\<close>

definition groupTransformer :: "lookups \<Rightarrow> importConnection \<Rightarrow> parseError + importConnection" where
  "groupTransformer lk connection =
     (case truthy (group connection) of
        None \<Rightarrow>
          (case truthy (parentIdentifier connection) of
             None \<Rightarrow> Inr connection
           | Some pid \<Rightarrow>
               (if identifierSetTruthy lk pid then Inr connection
                else Inl (invalidGroupIdentifierError pid)))
      | Some g \<Rightarrow>
          (case truthy (parentIdentifier connection) of
             Some pid \<Rightarrow> Inl ambiguousParentGroupError
           | None \<Rightarrow>
               (case truthy (groupLookups lk (absoluteGroupPath g)) of
                  None \<Rightarrow> Inl (invalidGroupError g)
                | Some ident \<Rightarrow> Inr (connection\<lparr>parentIdentifier := Some ident\<rparr>))))"

definition getGroupTransformer :: "connectionGroup \<Rightarrow> importConnection \<Rightarrow> parseError + importConnection" where
  "getGroupTransformer rootGroup = groupTransformer (getGroupLookups rootGroup)"

subsection \<open>parseConnectionData\<close>

text \<open>Running the entry through each transform, in order; a transform that throws
  ends the loop with what it threw.\<close>

fun applyTransforms :: "transform list \<Rightarrow> importConnection \<Rightarrow> parseError + importConnection" where
  "applyTransforms [] connectionObject = Inr connectionObject"
| "applyTransforms (t # ts) connectionObject =
     (case t connectionObject of
        Inl thrown \<Rightarrow> Inl thrown
      | Inr transformed \<Rightarrow> applyTransforms ts transformed)"

text \<open>The \<open>try\<close> statement around the group transformer: the entry after it and the
  errors of the entry.\<close>

definition tryGroupTransformer ::
    "lookups \<Rightarrow> importConnection \<Rightarrow> importConnection \<times> parseError list" where
  "tryGroupTransformer lk connectionObject =
     (case groupTransformer lk connectionObject of
        Inr transformed \<Rightarrow> (transformed, [])
      | Inl error \<Rightarrow> (connectionObject, [error]))"

text \<open>\<open>xs || []\<close> for a field that holds an array when it is present.\<close>

definition orEmpty :: "'a list option \<Rightarrow> 'a list" where
  "orEmpty v = (case v of Some xs \<Rightarrow> xs | None \<Rightarrow> [])"

text \<open>Adding the index of the entry to the list of one identifier.\<close>

definition addIndex :: "nat \<Rightarrow> string \<Rightarrow> (string \<rightharpoonup> nat list) \<Rightarrow> (string \<rightharpoonup> nat list)" where
  "addIndex index ident m =
     (case m ident of
        Some indices \<Rightarrow> m(ident \<mapsto> indices @ [index])
      | None \<Rightarrow> m(ident \<mapsto> [index]))"

definition createPatch :: "importConnection \<Rightarrow> directoryPatch" where
  "createPatch connectionObject =
     \<lparr>op = ''add'', path = ''/'', val = Connection connectionObject\<rparr>"

text \<open>The callback of \<open>reduce\<close>. The list of the entry's errors is pushed before
  it is filled; the model appends it filled.\<close>

definition parseEntry ::
    "lookups \<Rightarrow> transform list \<Rightarrow> parseResult \<Rightarrow> importConnection \<Rightarrow> nat
      \<Rightarrow> parseError + parseResult" where
  "parseEntry lk transformFunctions result entry index =
     (case applyTransforms transformFunctions entry of
        Inl thrown \<Rightarrow> Inl thrown
      | Inr transformed \<Rightarrow>
          (let (connectionObject, connectionErrors) = tryGroupTransformer lk transformed;
               connectionUsers = orEmpty (users connectionObject);
               connectionGroups = orEmpty (groups connectionObject)
           in Inr \<lparr>patches = patches result @ [createPatch connectionObject],
                   granteeUsers = fold (addIndex index) connectionUsers (granteeUsers result),
                   granteeGroups = fold (addIndex index) connectionGroups (granteeGroups result),
                   errors = errors result @ [connectionErrors],
                   hasErrors = (if length connectionErrors \<noteq> 0 then True
                                else hasErrors result)\<rparr>))"

text \<open>\<open>Array.prototype.reduce\<close> with the index of each entry; what the callback
  throws ends the reduction.\<close>

fun reduceEntries ::
    "lookups \<Rightarrow> transform list \<Rightarrow> parseResult \<Rightarrow> importConnection list \<Rightarrow> nat
      \<Rightarrow> parseError + parseResult" where
  "reduceEntries lk transformFunctions result [] index = Inr result"
| "reduceEntries lk transformFunctions result (entry # rest) index =
     (case parseEntry lk transformFunctions result entry index of
        Inl thrown \<Rightarrow> Inl thrown
      | Inr result' \<Rightarrow> reduceEntries lk transformFunctions result' rest (Suc index))"

text \<open>The promise returned by \<open>parseConnectionData\<close>: rejected with the error of the
  basic checks or with what the reduction threw, resolved with the parse result.\<close>

definition parseConnectionData ::
    "connectionGroup \<Rightarrow> parsedData \<Rightarrow> transform list \<Rightarrow> parseError + parseResult" where
  "parseConnectionData rootGroup connectionData transformFunctions =
     (case performBasicChecks connectionData of
        Some checkError \<Rightarrow> Inl checkError
      | None \<Rightarrow>
          (case connectionData of
             JArray entries \<Rightarrow>
               reduceEntries (getGroupLookups rootGroup) transformFunctions
                 newParseResult entries 0
           | _ \<Rightarrow> Inl \<lparr>message = ''connectionData.reduce is not a function'',
                        key = None, variables = []\<rparr>))"

subsection \<open>Group paths as the specification describes them\<close>

text \<open>The specification's \<open>pathOf\<close>, for the refinement of \<open>saveLookups\<close>: the
  path of the root is its bare name, the path of a child is the path of its parent, a
  slash and the name of the child. \<open>pathsFrom p g\<close> lists the path and the
  identifier of every node of \<open>g\<close>, the node itself (whose path is \<open>p\<close>) first.\<close>

fun pathsFrom :: "string \<Rightarrow> connectionGroup \<Rightarrow> (string \<times> string) list" where
  "pathsFrom nodePath (ConnectionGroup ident nm children) =
     (nodePath, ident) #
     concat (map (\<lambda>child. pathsFrom (nodePath @ ''/'' @ name child) child) children)"

definition treePaths :: "connectionGroup \<Rightarrow> (string \<times> string) list" where
  "treePaths rootGroup = pathsFrom (name rootGroup) rootGroup"

text \<open>The number of nodes of a tree.\<close>

fun nodeCount :: "connectionGroup \<Rightarrow> nat" where
  "nodeCount (ConnectionGroup ident nm children) = Suc (sum_list (map nodeCount children))"

text \<open>What one visit of \<open>saveLookups\<close> writes, for a node with the given path and
  identifier.\<close>

definition saveNode :: "string \<times> string \<Rightarrow> lookups \<Rightarrow> lookups" where
  "saveNode node s =
     \<lparr>groupLookups = (groupLookups s)(fst node \<mapsto> snd node),
      identifierSet = (identifierSet s)(snd node \<mapsto> True)\<rparr>"

subsection \<open>Example data\<close>

definition exampleTree :: connectionGroup where
  "exampleTree =
     ConnectionGroup ''ROOT'' ''ROOT''
       [ConnectionGroup ''g-east'' ''East'' [],
        ConnectionGroup ''g-42'' ''sub'' [ConnectionGroup ''g-7'' ''deep'' []]]"

definition emptyEntry :: importConnection where
  "emptyEntry =
     \<lparr>group = None, parentIdentifier = None, users = None, groups = None,
      attributes = []\<rparr>"

definition entryEast :: importConnection where
  "entryEast = emptyEntry\<lparr>group := Some ''ROOT/East'', users := Some [''alice'']\<rparr>"

definition entryParent :: importConnection where
  "entryParent = emptyEntry\<lparr>parentIdentifier := Some ''g-42'', groups := Some [''admins'']\<rparr>"

definition entryBoth :: importConnection where
  "entryBoth = emptyEntry\<lparr>group := Some ''Nonexistent'', parentIdentifier := Some ''g-42''\<rparr>"

definition entryMissing :: importConnection where
  "entryMissing = emptyEntry\<lparr>group := Some ''Missing/Path'', users := Some [''bob'']\<rparr>"

definition entryEmptyParent :: importConnection where
  "entryEmptyParent = emptyEntry\<lparr>group := Some ''East'', parentIdentifier := Some []\<rparr>"

definition entryInheritedName :: importConnection where
  "entryInheritedName = emptyEntry\<lparr>group := Some [], parentIdentifier := Some ''constructor''\<rparr>"

definition entryTwice :: importConnection where
  "entryTwice = emptyEntry\<lparr>users := Some [''alice'', ''alice'']\<rparr>"

definition transformFailure :: parseError where
  "transformFailure = \<lparr>message = ''Unreadable row'', key = None, variables = []\<rparr>"

definition throwingTransform :: transform where
  "throwingTransform connectionObject = Inl transformFailure"

definition renamingTransform :: transform where
  "renamingTransform connectionObject =
     Inr (connectionObject\<lparr>attributes := (''name'', ''imported'') # attributes connectionObject\<rparr>)"

definition pickyTransform :: transform where
  "pickyTransform connectionObject =
     (if group connectionObject = Some ''Missing/Path'' then Inl transformFailure
      else Inr connectionObject)"

subsection \<open>Auxiliary definitions\<close>

text \<open>The entry after the transform functions, for entries on which none of them
  throws (the entry itself otherwise).\<close>

definition afterTransforms :: "transform list \<Rightarrow> importConnection \<Rightarrow> importConnection" where
  "afterTransforms fs d = (case applyTransforms fs d of Inr c \<Rightarrow> c | Inl e \<Rightarrow> d)"

section \<open>Properties\<close>

subsection \<open>Helper lemmas\<close>

lemma exampleLookups:
  "getGroupLookups exampleTree =
     \<lparr>groupLookups = [''ROOT'' \<mapsto> ''ROOT'', ''ROOT/East'' \<mapsto> ''g-east'',
                      ''ROOT/sub'' \<mapsto> ''g-42'', ''ROOT/sub/deep'' \<mapsto> ''g-7''],
      identifierSet = [''ROOT'' \<mapsto> True, ''g-east'' \<mapsto> True, ''g-42'' \<mapsto> True,
                       ''g-7'' \<mapsto> True]\<rparr>"
  by (simp add: getGroupLookups_def exampleTree_def Let_def)

lemma absoluteGroupPath_spellings:
  "absoluteGroupPath ''sub'' = ''ROOT/sub''"
  "absoluteGroupPath ''/sub'' = ''ROOT/sub''"
  "absoluteGroupPath ''ROOT/sub'' = ''ROOT/sub''"
  "absoluteGroupPath ''ROOT/sub/'' = ''ROOT/sub''"
  by (simp_all add: absoluteGroupPath_def startsWith_def endsWith_def sliceButLast_def
      ROOT_GROUP_IDENTIFIER_def)

lemma groupTransformer_found:
  assumes "group connection = Some g" and "g \<noteq> []"
    and "truthy (parentIdentifier connection) = None"
    and "groupLookups lk (absoluteGroupPath g) = Some ident" and "ident \<noteq> []"
  shows "groupTransformer lk connection = Inr (connection\<lparr>parentIdentifier := Some ident\<rparr>)"
  using assms by (simp add: groupTransformer_def truthy_def)

lemma groupTransformer_not_found:
  assumes "group connection = Some g" and "g \<noteq> []"
    and "truthy (parentIdentifier connection) = None"
    and "truthy (groupLookups lk (absoluteGroupPath g)) = None"
  shows "groupTransformer lk connection = Inl (invalidGroupError g) \<and>
         key (invalidGroupError g) = Some ''IMPORT.ERROR_INVALID_GROUP'' \<and>
         variables (invalidGroupError g) = [(''GROUP'', g)]"
  using assms by (simp add: groupTransformer_def truthy_def invalidGroupError_def)

text \<open>The transformer decides that a field is there by its truthiness: the empty
  string counts as a missing field.\<close>

lemma groupTransformer_empty_group:
  assumes "group connection = Some []"
  shows "groupTransformer lk connection =
     (case truthy (parentIdentifier connection) of
        None \<Rightarrow> Inr connection
      | Some parentId \<Rightarrow>
          (if identifierSetTruthy lk parentId then Inr connection
           else Inl (invalidGroupIdentifierError parentId)))"
  using assms by (simp add: groupTransformer_def truthy_def)

lemma groupTransformer_empty_parent:
  assumes "group connection = Some g" and "g \<noteq> []"
    and "parentIdentifier connection = Some []"
  shows "groupTransformer lk connection =
     (case truthy (groupLookups lk (absoluteGroupPath g)) of
        None \<Rightarrow> Inl (invalidGroupError g)
      | Some ident \<Rightarrow> Inr (connection\<lparr>parentIdentifier := Some ident\<rparr>))"
  using assms by (simp add: groupTransformer_def truthy_def)

text \<open>An identifier that is no own property of the identifier set and no inherited
  member is rejected.\<close>

lemma groupTransformer_unknown_identifier:
  assumes "truthy (group connection) = None"
    and "parentIdentifier connection = Some parentId" and "parentId \<noteq> []"
    and "identifierSet lk parentId = None"
    and "parentId \<notin> set objectPrototypeMembers"
  shows "groupTransformer lk connection = Inl (invalidGroupIdentifierError parentId)"
  using assms by (simp add: groupTransformer_def truthy_def identifierSetTruthy_def)

text \<open>The path looked up in \<open>groupLookups\<close> begins with the root identifier, so it
  is never the name of an inherited member.\<close>

lemma absoluteGroupPath_root: "take 4 (absoluteGroupPath g) = ''ROOT''"
proof -
  have keep: "take 4 (butlast (''ROOT'' @ r)) = ''ROOT''" if "r \<noteq> []" for r :: string
    using that by (simp add: butlast_append)
  show ?thesis
  proof (cases "startsWith g ''/''")
    case True
    then have "g \<noteq> []" by (auto simp: startsWith_def)
    with True keep [of g] show ?thesis
      by (simp add: absoluteGroupPath_def Let_def ROOT_GROUP_IDENTIFIER_def sliceButLast_def)
  next
    case False
    show ?thesis
    proof (cases "startsWith g ''ROOT''")
      case True
      then obtain r where g: "g = ''ROOT'' @ r"
        by (metis append_take_drop_id length_Cons list.size(3) startsWith_def)
      show ?thesis
      proof (cases "r = []")
        case True
        with g show ?thesis
          by (simp add: absoluteGroupPath_def Let_def ROOT_GROUP_IDENTIFIER_def startsWith_def
              endsWith_def)
      next
        case False
        with g keep [of r] show ?thesis
          by (simp add: absoluteGroupPath_def Let_def ROOT_GROUP_IDENTIFIER_def startsWith_def
              sliceButLast_def)
      qed
    next
      case notRoot: False
      with False keep [of "''/'' @ g"] show ?thesis
        by (simp add: absoluteGroupPath_def Let_def ROOT_GROUP_IDENTIFIER_def sliceButLast_def)
    qed
  qed
qed

lemma absoluteGroupPath_not_inherited: "absoluteGroupPath g \<notin> set objectPrototypeMembers"
proof
  assume "absoluteGroupPath g \<in> set objectPrototypeMembers"
  then have "take 4 (absoluteGroupPath g) \<noteq> ''ROOT''"
    by (auto simp: objectPrototypeMembers_def)
  then show False by (simp add: absoluteGroupPath_root)
qed

lemma saveNode_sel [simp]:
  "groupLookups (saveNode node s) = (groupLookups s)(fst node \<mapsto> snd node)"
  "identifierSet (saveNode node s) = (identifierSet s)(snd node \<mapsto> True)"
  by (simp_all add: saveNode_def)

lemma saveNode_update:
  "s\<lparr>groupLookups := (groupLookups s)(p \<mapsto> i), identifierSet := (identifierSet s)(i \<mapsto> True)\<rparr> =
   saveNode (p, i) s"
  by (simp add: saveNode_def)

text \<open>The traversal writes the nodes of the tree one after the other, each under the
  path the specification gives it.\<close>

lemma saveLookups_fold:
  "saveLookups prefix g s = fold saveNode (pathsFrom (prefix @ name g) g) s"
proof (induction g arbitrary: prefix s)
  case (ConnectionGroup ident nm children)
  have kids: "fold (saveLookups p) cs t =
      fold saveNode (concat (map (\<lambda>c. pathsFrom (p @ name c) c) cs)) t"
    if "set cs \<subseteq> set children" for cs t p
    using that by (induction cs arbitrary: t) (simp_all add: ConnectionGroup.IH)
  show ?case
    by (simp add: Let_def kids saveNode_update)
qed

lemma groupLookups_fold_other:
  "p \<notin> fst ` set ps \<Longrightarrow> groupLookups (fold saveNode ps s) p = groupLookups s p"
  by (induction ps arbitrary: s) auto

lemma groupLookups_fold_distinct:
  "distinct (map fst ps) \<Longrightarrow> (p, i) \<in> set ps \<Longrightarrow> groupLookups (fold saveNode ps s) p = Some i"
proof (induction ps arbitrary: s)
  case Nil
  then show ?case by simp
next
  case (Cons x xs)
  show ?case
  proof (cases "x = (p, i)")
    case True
    with Cons.prems have "p \<notin> fst ` set xs" by auto
    then show ?thesis using True by (simp add: groupLookups_fold_other)
  next
    case False
    with Cons show ?thesis by auto
  qed
qed

lemma identifierSet_fold_keep:
  "identifierSet s i = Some True \<Longrightarrow> identifierSet (fold saveNode ps s) i = Some True"
  by (induction ps arbitrary: s) auto

lemma identifierSet_fold_member:
  "(p, i) \<in> set ps \<Longrightarrow> identifierSet (fold saveNode ps s) i = Some True"
proof (induction ps arbitrary: s)
  case Nil
  then show ?case by simp
next
  case (Cons x xs)
  show ?case
  proof (cases "x = (p, i)")
    case True
    then show ?thesis by (simp add: identifierSet_fold_keep)
  next
    case False
    with Cons show ?thesis by auto
  qed
qed

lemma length_pathsFrom: "length (pathsFrom p g) = nodeCount g"
proof (induction g arbitrary: p)
  case (ConnectionGroup ident nm children)
  show ?case
    by (simp add: length_concat comp_def ConnectionGroup.IH cong: map_cong)
qed

text \<open>The group transformer leaves the grants of the entry alone.\<close>

lemma tryGroupTransformer_users:
  "users (fst (tryGroupTransformer lk c)) = users c"
  "groups (fst (tryGroupTransformer lk c)) = groups c"
  by (auto simp: tryGroupTransformer_def groupTransformer_def
      split: sum.splits option.splits if_splits)

lemma parseEntry_ok:
  assumes "applyTransforms fs d = Inr c"
  shows "parseEntry lk fs acc d k =
     Inr \<lparr>patches = patches acc @ [createPatch (fst (tryGroupTransformer lk c))],
          granteeUsers = fold (addIndex k) (orEmpty (users c)) (granteeUsers acc),
          granteeGroups = fold (addIndex k) (orEmpty (groups c)) (granteeGroups acc),
          errors = errors acc @ [snd (tryGroupTransformer lk c)],
          hasErrors = (snd (tryGroupTransformer lk c) \<noteq> [] \<or> hasErrors acc)\<rparr>"
  using assms
  by (simp add: parseEntry_def tryGroupTransformer_users split_beta Let_def)

lemma reduceEntries_lists:
  assumes "\<forall>d \<in> set ds. \<exists>c. applyTransforms fs d = Inr c"
  shows "\<exists>r. reduceEntries lk fs acc ds k = Inr r \<and>
     patches r = patches acc @ map (\<lambda>d. createPatch (fst (tryGroupTransformer lk (afterTransforms fs d)))) ds \<and>
     errors r = errors acc @ map (\<lambda>d. snd (tryGroupTransformer lk (afterTransforms fs d))) ds"
  using assms
proof (induction ds arbitrary: acc k)
  case Nil
  then show ?case by simp
next
  case (Cons d ds)
  then obtain c where c: "applyTransforms fs d = Inr c" by auto
  have a: "afterTransforms fs d = c" by (simp add: afterTransforms_def c)
  from Cons.prems have rest: "\<forall>d \<in> set ds. \<exists>c. applyTransforms fs d = Inr c" by simp
  obtain r1 where r1: "parseEntry lk fs acc d k = Inr r1"
    and p1: "patches r1 = patches acc @ [createPatch (fst (tryGroupTransformer lk c))]"
    and e1: "errors r1 = errors acc @ [snd (tryGroupTransformer lk c)]"
    using parseEntry_ok [OF c, of lk acc k] by simp
  show ?case
    using Cons.IH [OF rest, of r1 "Suc k"] by (simp add: r1 p1 e1 a)
qed

lemma orEmpty_addIndex:
  "orEmpty (addIndex k x m y) = orEmpty (m y) @ (if y = x then [k] else [])"
  by (simp add: addIndex_def orEmpty_def split: option.splits)

lemma orEmpty_fold_addIndex:
  "orEmpty (fold (addIndex k) xs m y) = orEmpty (m y) @ replicate (count_list xs y) k"
  by (induction xs arbitrary: m) (auto simp: orEmpty_addIndex replicate_append_same)

lemma count_list_replicate: "count_list (replicate n k) i = (if i = k then n else 0)"
  by (induction n) auto

lemma parseEntry_Inr_transformed:
  "parseEntry lk fs acc d k = Inr r \<Longrightarrow> \<exists>c. applyTransforms fs d = Inr c"
  by (cases "applyTransforms fs d") (simp_all add: parseEntry_def)

lemma reduceEntries_counts:
  assumes "reduceEntries lk fs acc ds k = Inr r"
  shows "count_list (orEmpty (granteeUsers r y)) i =
           count_list (orEmpty (granteeUsers acc y)) i +
           (if k \<le> i \<and> i < k + length ds
            then count_list (orEmpty (users (afterTransforms fs (ds ! (i - k))))) y else 0) \<and>
         count_list (orEmpty (granteeGroups r y)) i =
           count_list (orEmpty (granteeGroups acc y)) i +
           (if k \<le> i \<and> i < k + length ds
            then count_list (orEmpty (groups (afterTransforms fs (ds ! (i - k))))) y else 0)"
  using assms
proof (induction ds arbitrary: acc k)
  case Nil
  then show ?case by simp
next
  case (Cons d ds)
  from Cons.prems obtain r1 where r1: "parseEntry lk fs acc d k = Inr r1"
    and rest: "reduceEntries lk fs r1 ds (Suc k) = Inr r"
    by (auto split: sum.splits)
  from parseEntry_Inr_transformed [OF r1] obtain c where c: "applyTransforms fs d = Inr c" ..
  have a: "afterTransforms fs d = c" by (simp add: afterTransforms_def c)
  have u1: "granteeUsers r1 = fold (addIndex k) (orEmpty (users c)) (granteeUsers acc)"
    and g1: "granteeGroups r1 = fold (addIndex k) (orEmpty (groups c)) (granteeGroups acc)"
    using parseEntry_ok [OF c, of lk acc k] r1 by auto
  show ?case
    using Cons.IH [OF rest]
    by (auto simp: u1 g1 a orEmpty_fold_addIndex count_list_replicate nth_Cons' Suc_diff_le)
qed

lemma reduceEntries_thrown:
  assumes "i < length ds" and "applyTransforms fs (ds ! i) = Inl thrown"
    and "\<forall>j < i. \<exists>c. applyTransforms fs (ds ! j) = Inr c"
  shows "reduceEntries lk fs acc ds k = Inl thrown"
  using assms
proof (induction ds arbitrary: i acc k)
  case Nil
  then show ?case by simp
next
  case (Cons d ds)
  show ?case
  proof (cases i)
    case 0
    with Cons.prems show ?thesis by (simp add: parseEntry_def)
  next
    case (Suc i')
    with Cons.prems obtain c where c: "applyTransforms fs d = Inr c" by fastforce
    from Suc Cons.prems have "i' < length ds" and "applyTransforms fs (ds ! i') = Inl thrown"
      and "\<forall>j < i'. \<exists>c. applyTransforms fs (ds ! j) = Inr c"
      by auto
    from Cons.IH [OF this] show ?thesis
      by (simp add: parseEntry_ok [OF c])
  qed
qed

subsection \<open>The basic checks\<close>

text \<open>
  Claim C6. \<open>parseConnectionData\<close> checks the parsed data before anything else:
  data that is not an array is rejected with the error whose key is
  \<open>IMPORT.ERROR_ARRAY_REQUIRED\<close>, an empty array with the error whose key is
  \<open>IMPORT.ERROR_EMPTY_FILE\<close>. The rejection is the whole outcome (there is no parse
  result), and it depends neither on the transform functions nor on the group tree.
\<close>

theorem basic_checks_reject:
  "(\<not> instanceofArray connectionData \<longrightarrow>
      parseConnectionData rootGroup connectionData transformFunctions = Inl arrayRequiredError) \<and>
   parseConnectionData rootGroup (JArray []) transformFunctions = Inl emptyFileError \<and>
   key arrayRequiredError = Some ''IMPORT.ERROR_ARRAY_REQUIRED'' \<and>
   key emptyFileError = Some ''IMPORT.ERROR_EMPTY_FILE''"
  by (simp add: parseConnectionData_def performBasicChecks_def instanceofArray_def
      arrayRequiredError_def emptyFileError_def)

theorem basic_checks_reject_witness:
  "\<not> instanceofArray (JObject []) \<and>
   parseConnectionData exampleTree (JObject []) [throwingTransform] = Inl arrayRequiredError \<and>
   parseConnectionData exampleTree (JArray []) [throwingTransform] = Inl emptyFileError"
  using basic_checks_reject [of "JObject []" exampleTree "[throwingTransform]"]
  by (simp add: instanceofArray_def)

subsection \<open>The group transformer\<close>

text \<open>
  Claim C2, evaluated on the code. For the entry \<open>{group: "ROOT/East", users: ["alice"]}\<close>
  and a tree in which \<open>ROOT/East\<close> is the group \<open>g-east\<close>, the transformer returns the
  entry with \<open>parentIdentifier\<close> set to \<open>g-east\<close>; the \<open>group\<close> field of the
  returned entry is still \<open>ROOT/East\<close>: the object spread copies it.
\<close>

theorem group_field_kept:
  "getGroupTransformer exampleTree entryEast =
     Inr (entryEast\<lparr>parentIdentifier := Some ''g-east''\<rparr>) \<and>
   group (entryEast\<lparr>parentIdentifier := Some ''g-east''\<rparr>) = Some ''ROOT/East''"
  by (simp add: getGroupTransformer_def groupTransformer_def exampleLookups entryEast_def
      emptyEntry_def truthy_def absoluteGroupPath_def startsWith_def endsWith_def
      ROOT_GROUP_IDENTIFIER_def)

text \<open>
  Claim C3, as the code has it. An entry whose group and parent identifier are both
  non-empty strings is rejected with the error whose key is
  \<open>IMPORT.ERROR_AMBIGUOUS_PARENT_GROUP\<close>, whatever the lookups hold: neither the set
  of known identifiers nor the map of group paths is consulted.
\<close>

theorem ambiguous_parent_rejected:
  assumes "group connection = Some g" and "g \<noteq> []"
    and "parentIdentifier connection = Some parentId" and "parentId \<noteq> []"
  shows "groupTransformer lk connection = Inl ambiguousParentGroupError \<and>
         key ambiguousParentGroupError = Some ''IMPORT.ERROR_AMBIGUOUS_PARENT_GROUP''"
  using assms by (simp add: groupTransformer_def truthy_def ambiguousParentGroupError_def)

theorem ambiguous_parent_rejected_witness:
  "getGroupTransformer exampleTree entryBoth = Inl ambiguousParentGroupError \<and>
   identifierSet (getGroupLookups exampleTree) ''g-42'' = Some True \<and>
   groupLookups (getGroupLookups exampleTree) (absoluteGroupPath ''Nonexistent'') = None"
proof -
  have g: "group entryBoth = Some ''Nonexistent''"
    and p: "parentIdentifier entryBoth = Some ''g-42''"
    by (simp_all add: entryBoth_def emptyEntry_def)
  have "groupTransformer (getGroupLookups exampleTree) entryBoth = Inl ambiguousParentGroupError"
    using ambiguous_parent_rejected [OF g _ p, of "getGroupLookups exampleTree"] by simp
  moreover have "identifierSet (getGroupLookups exampleTree) ''g-42'' = Some True"
    by (simp add: exampleLookups)
  moreover have "groupLookups (getGroupLookups exampleTree) (absoluteGroupPath ''Nonexistent'') = None"
    by (simp add: exampleLookups absoluteGroupPath_def startsWith_def endsWith_def
        ROOT_GROUP_IDENTIFIER_def)
  ultimately show ?thesis by (simp add: getGroupTransformer_def)
qed

text \<open>Claim C3 as stated fails: an entry that has both fields, the parent identifier
  being the empty string, is not rejected; the group is resolved and the parent
  identifier it had is overwritten.\<close>

theorem empty_parent_not_ambiguous:
  "group entryEmptyParent = Some ''East'' \<and>
   parentIdentifier entryEmptyParent = Some [] \<and>
   getGroupTransformer exampleTree entryEmptyParent =
     Inr (entryEmptyParent\<lparr>parentIdentifier := Some ''g-east''\<rparr>)"
  by (simp add: getGroupTransformer_def groupTransformer_def exampleLookups
      entryEmptyParent_def emptyEntry_def truthy_def absoluteGroupPath_def startsWith_def
      endsWith_def ROOT_GROUP_IDENTIFIER_def)

text \<open>
  Claim C8. With no parent identifier on the entry and lookups in which \<open>ROOT/sub\<close>
  is the (non-empty) identifier \<open>ident\<close>, the four spellings \<open>sub\<close>, \<open>/sub\<close>,
  \<open>ROOT/sub\<close> and \<open>ROOT/sub/\<close> of the group all resolve, and all to \<open>ident\<close>.
\<close>

theorem group_spellings_agree:
  assumes "truthy (parentIdentifier connection) = None"
    and "groupLookups lk ''ROOT/sub'' = Some ident" and "ident \<noteq> []"
    and "g \<in> {''sub'', ''/sub'', ''ROOT/sub'', ''ROOT/sub/''}"
  shows "groupTransformer lk (connection\<lparr>group := Some g\<rparr>) =
           Inr (connection\<lparr>group := Some g, parentIdentifier := Some ident\<rparr>)"
proof -
  from assms(4) have path: "absoluteGroupPath g = ''ROOT/sub''" and ne: "g \<noteq> []"
    using absoluteGroupPath_spellings by auto
  show ?thesis
    using groupTransformer_found [of "connection\<lparr>group := Some g\<rparr>" g lk ident]
      assms(1-3) path ne
    by simp
qed

theorem group_spellings_agree_witness:
  "map (\<lambda>g. groupTransformer (getGroupLookups exampleTree) (emptyEntry\<lparr>group := Some g\<rparr>))
     [''sub'', ''/sub'', ''ROOT/sub'', ''ROOT/sub/''] =
   map (\<lambda>g. Inr (emptyEntry\<lparr>group := Some g, parentIdentifier := Some ''g-42''\<rparr>))
     [''sub'', ''/sub'', ''ROOT/sub'', ''ROOT/sub/'']"
proof -
  have p: "truthy (parentIdentifier emptyEntry) = None"
    by (simp add: emptyEntry_def truthy_def)
  have l: "groupLookups (getGroupLookups exampleTree) ''ROOT/sub'' = Some ''g-42''"
    by (simp add: exampleLookups)
  have n: "''g-42'' \<noteq> []" by simp
  show ?thesis
    using group_spellings_agree [OF p l n, of "''sub''"]
      group_spellings_agree [OF p l n, of "''/sub''"]
      group_spellings_agree [OF p l n, of "''ROOT/sub''"]
      group_spellings_agree [OF p l n, of "''ROOT/sub/''"]
    by simp
qed

text \<open>
  Claim C10, evaluated on the code. The entry \<open>{group: "", parentIdentifier:
  "constructor"}\<close> takes the branch for entries without a group. No group of the tree
  has the identifier \<open>constructor\<close> and the identifier set has no such property of
  its own, yet the entry is returned unchanged instead of being rejected with the
  unknown-identifier error: the read of the identifier set finds the member of that
  name which the object inherits.
\<close>

theorem inherited_name_passes_as_known:
  "''constructor'' \<notin> snd ` set (treePaths exampleTree) \<and>
   identifierSet (getGroupLookups exampleTree) ''constructor'' = None \<and>
   getGroupTransformer exampleTree entryInheritedName = Inr entryInheritedName"
proof -
  have "''constructor'' \<notin> snd ` set (treePaths exampleTree)"
    by (simp add: treePaths_def exampleTree_def)
  moreover have "identifierSet (getGroupLookups exampleTree) ''constructor'' = None"
    by (simp add: exampleLookups)
  moreover have "getGroupTransformer exampleTree entryInheritedName = Inr entryInheritedName"
    by (simp add: getGroupTransformer_def groupTransformer_def exampleLookups
        identifierSetTruthy_def objectPrototypeMembers_def entryInheritedName_def
        emptyEntry_def truthy_def)
  ultimately show ?thesis by simp
qed

subsection \<open>The group lookups\<close>

text \<open>
  Claim C9. For a tree whose node paths are pairwise distinct, the lookups built by
  \<open>getGroupLookups\<close> map the path of every node to the identifier of that node, and
  the identifier of every node is in the identifier set. The traversal visits every
  node once: the lookups are the result of one write per node, in the order of
  \<open>treePaths\<close>, which has as many elements as the tree has nodes.
\<close>

theorem group_lookups_round_trip:
  assumes "distinct (map fst (treePaths rootGroup))"
  shows "(\<forall>(nodePath, ident) \<in> set (treePaths rootGroup).
            groupLookups (getGroupLookups rootGroup) nodePath = Some ident \<and>
            identifierSet (getGroupLookups rootGroup) ident = Some True) \<and>
         getGroupLookups rootGroup =
           fold saveNode (treePaths rootGroup)
             \<lparr>groupLookups = Map.empty, identifierSet = Map.empty\<rparr> \<and>
         length (treePaths rootGroup) = nodeCount rootGroup"
proof -
  have eq: "getGroupLookups rootGroup =
      fold saveNode (treePaths rootGroup) \<lparr>groupLookups = Map.empty, identifierSet = Map.empty\<rparr>"
    by (simp add: getGroupLookups_def treePaths_def saveLookups_fold)
  show ?thesis
    using assms by (auto simp: eq groupLookups_fold_distinct identifierSet_fold_member
        length_pathsFrom treePaths_def)
qed

theorem group_lookups_round_trip_witness:
  "distinct (map fst (treePaths exampleTree)) \<and>
   treePaths exampleTree =
     [(''ROOT'', ''ROOT''), (''ROOT/East'', ''g-east''), (''ROOT/sub'', ''g-42''),
      (''ROOT/sub/deep'', ''g-7'')] \<and>
   groupLookups (getGroupLookups exampleTree) ''ROOT/sub/deep'' = Some ''g-7'' \<and>
   identifierSet (getGroupLookups exampleTree) ''g-7'' = Some True \<and>
   nodeCount exampleTree = 4"
proof -
  have t: "treePaths exampleTree =
     [(''ROOT'', ''ROOT''), (''ROOT/East'', ''g-east''), (''ROOT/sub'', ''g-42''),
      (''ROOT/sub/deep'', ''g-7'')]"
    by (simp add: treePaths_def exampleTree_def)
  have d: "distinct (map fst (treePaths exampleTree))"
    by (simp add: t)
  have n: "nodeCount exampleTree = 4"
    by (simp add: exampleTree_def)
  show ?thesis
    using group_lookups_round_trip [OF d] d by (simp add: t exampleLookups n)
qed

subsection \<open>The reduction over the entries\<close>

text \<open>
  Claim C5. For an entry whose transform functions have returned \<open>c\<close>: when the
  group transformer throws, the one error it throws is the entry's list of errors, the
  patch is created from \<open>c\<close> itself (the entry as it was before the transformer) and
  \<open>hasErrors\<close> is set. Whether the transformer throws or returns, the index of the
  entry is added for the users and the groups of \<open>c\<close>, an absent list counting as
  empty.
\<close>

theorem failed_resolution_keeps_entry:
  assumes "applyTransforms transformFunctions entry = Inr c"
  shows "\<exists>r. parseEntry lk transformFunctions result entry index = Inr r \<and>
     granteeUsers r = fold (addIndex index) (orEmpty (users c)) (granteeUsers result) \<and>
     granteeGroups r = fold (addIndex index) (orEmpty (groups c)) (granteeGroups result) \<and>
     (\<forall>error. groupTransformer lk c = Inl error \<longrightarrow>
        errors r = errors result @ [[error]] \<and>
        patches r = patches result @ [createPatch c] \<and>
        hasErrors r) \<and>
     (\<forall>resolved. groupTransformer lk c = Inr resolved \<longrightarrow>
        errors r = errors result @ [[]] \<and>
        patches r = patches result @ [createPatch resolved] \<and>
        hasErrors r = hasErrors result)"
  by (simp add: parseEntry_ok [OF assms] tryGroupTransformer_def)

theorem failed_resolution_keeps_entry_witness:
  "(\<exists>r. parseEntry (getGroupLookups exampleTree) [] newParseResult entryMissing 0 = Inr r \<and>
        granteeUsers r ''bob'' = Some [0] \<and>
        errors r = [[invalidGroupError ''Missing/Path'']] \<and>
        patches r = [createPatch entryMissing] \<and>
        hasErrors r)"
proof -
  have t: "applyTransforms [] entryMissing = Inr entryMissing" by simp
  have g: "groupTransformer (getGroupLookups exampleTree) entryMissing =
      Inl (invalidGroupError ''Missing/Path'')"
    by (simp add: groupTransformer_def exampleLookups entryMissing_def emptyEntry_def truthy_def
        absoluteGroupPath_def startsWith_def endsWith_def ROOT_GROUP_IDENTIFIER_def)
  from failed_resolution_keeps_entry [OF t, of "getGroupLookups exampleTree" newParseResult 0] g
  obtain r where "parseEntry (getGroupLookups exampleTree) [] newParseResult entryMissing 0 = Inr r"
    and "granteeUsers r = fold (addIndex 0) (orEmpty (users entryMissing)) (granteeUsers newParseResult)"
    and "errors r = errors newParseResult @ [[invalidGroupError ''Missing/Path'']]"
    and "patches r = patches newParseResult @ [createPatch entryMissing]"
    and "hasErrors r"
    by auto
  then show ?thesis
    by (auto simp: newParseResult_def entryMissing_def emptyEntry_def orEmpty_def addIndex_def)
qed

text \<open>
  Claim C1. For a non-empty array of entries on which no transform function throws,
  \<open>parseConnectionData\<close> resolves with a result that has one patch and one list of
  errors per entry, in the order of the entries: those at index \<open>i\<close> are the patch
  created from entry \<open>i\<close> after the group transformer (the entry before it when the
  transformer throws) and the errors of entry \<open>i\<close>.
\<close>

theorem one_patch_per_entry:
  assumes "entries \<noteq> []"
    and "\<forall>entry \<in> set entries. \<exists>c. applyTransforms transformFunctions entry = Inr c"
  shows "\<exists>r. parseConnectionData rootGroup (JArray entries) transformFunctions = Inr r \<and>
     length (patches r) = length entries \<and>
     length (errors r) = length entries \<and>
     (\<forall>i < length entries. \<forall>c. applyTransforms transformFunctions (entries ! i) = Inr c \<longrightarrow>
        patches r ! i = createPatch (fst (tryGroupTransformer (getGroupLookups rootGroup) c)) \<and>
        errors r ! i = snd (tryGroupTransformer (getGroupLookups rootGroup) c))"
proof -
  obtain r where r: "reduceEntries (getGroupLookups rootGroup) transformFunctions newParseResult entries 0 = Inr r"
    and p: "patches r = map (\<lambda>d. createPatch (fst (tryGroupTransformer (getGroupLookups rootGroup)
              (afterTransforms transformFunctions d)))) entries"
    and e: "errors r = map (\<lambda>d. snd (tryGroupTransformer (getGroupLookups rootGroup)
              (afterTransforms transformFunctions d))) entries"
    using reduceEntries_lists [OF assms(2), of "getGroupLookups rootGroup" newParseResult 0]
    by (auto simp: newParseResult_def)
  have "parseConnectionData rootGroup (JArray entries) transformFunctions = Inr r"
    using assms(1) r by (simp add: parseConnectionData_def performBasicChecks_def instanceofArray_def)
  then show ?thesis
    by (auto simp: p e afterTransforms_def)
qed

theorem one_patch_per_entry_witness:
  "[entryEast, entryBoth] \<noteq> [] \<and>
   (\<exists>r. parseConnectionData exampleTree (JArray [entryEast, entryBoth]) [renamingTransform] = Inr r \<and>
        length (patches r) = 2 \<and> length (errors r) = 2 \<and>
        patches r ! 0 =
          createPatch (entryEast\<lparr>parentIdentifier := Some ''g-east'',
                                  attributes := [(''name'', ''imported'')]\<rparr>) \<and>
        errors r ! 0 = [] \<and>
        patches r ! 1 = createPatch (entryBoth\<lparr>attributes := [(''name'', ''imported'')]\<rparr>) \<and>
        errors r ! 1 = [ambiguousParentGroupError])"
proof -
  let ?east = "entryEast\<lparr>attributes := [(''name'', ''imported'')]\<rparr>"
  let ?both = "entryBoth\<lparr>attributes := [(''name'', ''imported'')]\<rparr>"
  have ne: "[entryEast, entryBoth] \<noteq> []" by simp
  have t0: "applyTransforms [renamingTransform] entryEast = Inr ?east"
    and t1: "applyTransforms [renamingTransform] entryBoth = Inr ?both"
    by (simp_all add: renamingTransform_def entryEast_def entryBoth_def emptyEntry_def)
  have ok: "\<forall>entry \<in> set [entryEast, entryBoth]. \<exists>c. applyTransforms [renamingTransform] entry = Inr c"
    using t0 t1 by simp
  have g0: "tryGroupTransformer (getGroupLookups exampleTree) ?east =
      (entryEast\<lparr>parentIdentifier := Some ''g-east'', attributes := [(''name'', ''imported'')]\<rparr>, [])"
    by (simp add: tryGroupTransformer_def groupTransformer_def exampleLookups entryEast_def
        emptyEntry_def truthy_def absoluteGroupPath_def startsWith_def endsWith_def
        ROOT_GROUP_IDENTIFIER_def)
  have g1: "tryGroupTransformer (getGroupLookups exampleTree) ?both = (?both, [ambiguousParentGroupError])"
    by (simp add: tryGroupTransformer_def groupTransformer_def entryBoth_def emptyEntry_def truthy_def)
  from one_patch_per_entry [OF ne ok, of exampleTree] obtain r where
    r: "parseConnectionData exampleTree (JArray [entryEast, entryBoth]) [renamingTransform] = Inr r"
    and lp: "length (patches r) = 2" and le: "length (errors r) = 2"
    and each: "\<And>i c. i < 2 \<Longrightarrow> applyTransforms [renamingTransform] ([entryEast, entryBoth] ! i) = Inr c \<Longrightarrow>
        patches r ! i = createPatch (fst (tryGroupTransformer (getGroupLookups exampleTree) c)) \<and>
        errors r ! i = snd (tryGroupTransformer (getGroupLookups exampleTree) c)"
    by auto
  from each [of 0 ?east] each [of 1 ?both] t0 t1 g0 g1
  have "patches r ! 0 =
          createPatch (entryEast\<lparr>parentIdentifier := Some ''g-east'',
                                  attributes := [(''name'', ''imported'')]\<rparr>)"
    and "errors r ! 0 = []"
    and "patches r ! 1 = createPatch ?both"
    and "errors r ! 1 = [ambiguousParentGroupError]"
    by simp_all
  with r lp le ne show ?thesis by blast
qed

text \<open>
  Claim C4, as the code has it. A value thrown by a transform function is not caught:
  \<open>parseConnectionData\<close> rejects with the value thrown for the first entry on which
  a transform function throws, and there is no parse result. Only what the group
  transformer throws is kept in the errors of the entry.
\<close>

theorem thrown_transform_rejects_batch:
  assumes "i < length entries"
    and "applyTransforms transformFunctions (entries ! i) = Inl thrown"
    and "\<forall>j < i. \<exists>c. applyTransforms transformFunctions (entries ! j) = Inr c"
  shows "parseConnectionData rootGroup (JArray entries) transformFunctions = Inl thrown"
proof -
  from assms(1) have "entries \<noteq> []" by auto
  then show ?thesis
    using reduceEntries_thrown [OF assms]
    by (simp add: parseConnectionData_def performBasicChecks_def instanceofArray_def)
qed

theorem thrown_transform_rejects_batch_witness:
  "applyTransforms [renamingTransform, pickyTransform] entryEast =
     Inr (entryEast\<lparr>attributes := [(''name'', ''imported'')]\<rparr>) \<and>
   applyTransforms [renamingTransform, pickyTransform] entryMissing = Inl transformFailure \<and>
   parseConnectionData exampleTree (JArray [entryEast, entryMissing, entryParent])
     [renamingTransform, pickyTransform] = Inl transformFailure"
proof -
  let ?fs = "[renamingTransform, pickyTransform]"
  let ?es = "[entryEast, entryMissing, entryParent]"
  have t0: "applyTransforms ?fs entryEast = Inr (entryEast\<lparr>attributes := [(''name'', ''imported'')]\<rparr>)"
    and t1: "applyTransforms ?fs entryMissing = Inl transformFailure"
    by (simp_all add: renamingTransform_def pickyTransform_def entryEast_def entryMissing_def
        emptyEntry_def)
  have i: "(1::nat) < length ?es" by simp
  have at: "applyTransforms ?fs (?es ! 1) = Inl transformFailure"
    using t1 by simp
  have before: "\<forall>j < (1::nat). \<exists>c. applyTransforms ?fs (?es ! j) = Inr c"
    using t0 by simp
  from thrown_transform_rejects_batch [OF i at before, of exampleTree] t0 t1 show ?thesis by simp
qed

text \<open>Claim C4 as stated fails: with a transform function that throws, the two
  entries below give a rejected promise, not a result with the failure among the
  errors of an entry.\<close>

theorem thrown_transform_not_caught:
  "parseConnectionData exampleTree (JArray [entryEast, entryParent]) [throwingTransform] =
     Inl transformFailure"
  by (simp add: parseConnectionData_def performBasicChecks_def instanceofArray_def
      parseEntry_def throwingTransform_def)

text \<open>
  Claim C7, as the code has it. For a non-empty array of entries on which no transform
  function throws, and every index \<open>i\<close>: the list of indices kept for an identifier
  holds \<open>i\<close> as many times as the users (the groups) of entry \<open>i\<close> hold that
  identifier, so once for an identifier the entry names once; and every identifier the
  entry names is a key of the map.
\<close>

theorem grantee_index_counts:
  assumes "entries \<noteq> []"
    and "\<forall>entry \<in> set entries. \<exists>c. applyTransforms transformFunctions entry = Inr c"
  shows "\<exists>r. parseConnectionData rootGroup (JArray entries) transformFunctions = Inr r \<and>
     (\<forall>i < length entries. \<forall>c ident.
        applyTransforms transformFunctions (entries ! i) = Inr c \<longrightarrow>
          count_list (orEmpty (granteeUsers r ident)) i = count_list (orEmpty (users c)) ident \<and>
          count_list (orEmpty (granteeGroups r ident)) i = count_list (orEmpty (groups c)) ident \<and>
          (ident \<in> set (orEmpty (users c)) \<longrightarrow> ident \<in> dom (granteeUsers r)) \<and>
          (ident \<in> set (orEmpty (groups c)) \<longrightarrow> ident \<in> dom (granteeGroups r)))"
proof -
  let ?lk = "getGroupLookups rootGroup"
  obtain r where red: "reduceEntries ?lk transformFunctions newParseResult entries 0 = Inr r"
    using reduceEntries_lists [OF assms(2), of ?lk newParseResult 0] by blast
  have res: "parseConnectionData rootGroup (JArray entries) transformFunctions = Inr r"
    using assms(1) red
    by (simp add: parseConnectionData_def performBasicChecks_def instanceofArray_def)
  have counts: "count_list (orEmpty (granteeUsers r ident)) i = count_list (orEmpty (users c)) ident \<and>
      count_list (orEmpty (granteeGroups r ident)) i = count_list (orEmpty (groups c)) ident"
    if "i < length entries" and "applyTransforms transformFunctions (entries ! i) = Inr c"
    for i c ident
    using reduceEntries_counts [OF red, of ident i] that
    by (simp add: newParseResult_def orEmpty_def afterTransforms_def)
  have keyed: "ident \<in> dom m" if "count_list (orEmpty (m ident)) i = count_list xs ident"
    and "ident \<in> set xs" for m :: "string \<rightharpoonup> nat list" and ident i xs
  proof -
    from that have "count_list (orEmpty (m ident)) i \<noteq> 0"
      by (simp add: count_list_0_iff)
    then show ?thesis by (cases "m ident") (auto simp: orEmpty_def)
  qed
  show ?thesis
    using res counts keyed by blast
qed

theorem grantee_index_counts_witness:
  "[entryEast, entryTwice] \<noteq> [] \<and>
   (\<exists>r. parseConnectionData exampleTree (JArray [entryEast, entryTwice]) [] = Inr r \<and>
        count_list (orEmpty (granteeUsers r ''alice'')) 0 = 1 \<and>
        count_list (orEmpty (granteeUsers r ''alice'')) 1 = 2 \<and>
        ''alice'' \<in> dom (granteeUsers r))"
proof -
  have ne: "[entryEast, entryTwice] \<noteq> []" by simp
  have ok: "\<forall>entry \<in> set [entryEast, entryTwice]. \<exists>c. applyTransforms [] entry = Inr c"
    by simp
  from grantee_index_counts [OF ne ok, of exampleTree] obtain r where
    r: "parseConnectionData exampleTree (JArray [entryEast, entryTwice]) [] = Inr r"
    and each: "\<forall>i < length [entryEast, entryTwice]. \<forall>c ident.
        applyTransforms [] ([entryEast, entryTwice] ! i) = Inr c \<longrightarrow>
          count_list (orEmpty (granteeUsers r ident)) i = count_list (orEmpty (users c)) ident \<and>
          count_list (orEmpty (granteeGroups r ident)) i = count_list (orEmpty (groups c)) ident \<and>
          (ident \<in> set (orEmpty (users c)) \<longrightarrow> ident \<in> dom (granteeUsers r)) \<and>
          (ident \<in> set (orEmpty (groups c)) \<longrightarrow> ident \<in> dom (granteeGroups r))"
    by blast
  from each [rule_format, of 0 entryEast "''alice''"]
  have c0: "count_list (orEmpty (granteeUsers r ''alice'')) 0 = 1"
    and d: "''alice'' \<in> dom (granteeUsers r)"
    by (simp_all add: entryEast_def emptyEntry_def orEmpty_def)
  from each [rule_format, of 1 entryTwice "''alice''"]
  have c1: "count_list (orEmpty (granteeUsers r ''alice'')) 1 = 2"
    by (simp add: entryTwice_def emptyEntry_def orEmpty_def)
  from r ne c0 c1 d show ?thesis by blast
qed

text \<open>Claim C7 as stated fails: an entry that names a user twice has its index twice
  in the list of that user.\<close>

theorem repeated_user_indexed_twice:
  "parseConnectionData exampleTree (JArray [entryTwice]) [] =
     Inr \<lparr>patches = [createPatch entryTwice],
          granteeUsers = [''alice'' \<mapsto> [0, 0]],
          granteeGroups = Map.empty,
          errors = [[]],
          hasErrors = False\<rparr>"
  by (simp add: parseConnectionData_def performBasicChecks_def instanceofArray_def
      parseEntry_def newParseResult_def tryGroupTransformer_def groupTransformer_def
      truthy_def entryTwice_def emptyEntry_def orEmpty_def addIndex_def)

end
